theory Spec2Isabelle
  imports Main "HOL-Library.Multiset" "HOL-Library.Word"
begin

section \<open>Values exchanged with the object store\<close>

text \<open>
  The adapter (class \<open>StorjService\<close>) talks to an S3-compatible store through one method,
  \<open>s3Client.send(command)\<close>, which either resolves to a response object or rejects with
  an error. Responses are untyped on the TypeScript side (\<open>any\<close>): the code reads the
  optional properties it needs and nothing else. The model keeps exactly those
  properties, each one optional as in JavaScript (\<open>None\<close> is \<open>undefined\<close>).
\<close>

type_synonym buffer = "8 word list"

datatype error =
    Error string
  | TypeError string
  | ServiceException string string

text \<open>
  A readable body: the chunks its \<open>data\<close> events deliver, then either the \<open>end\<close> event
  (\<open>None\<close>) or an \<open>error\<close> event.
\<close>

datatype stream = Stream "buffer list" "error option"

datatype s3_object = S3Object "string option" "nat option"

text \<open>
  An element of \<open>response.Versions\<close> or \<open>response.DeleteMarkers\<close>. \<open>LastModified\<close> is a
  \<open>Date\<close>, held as its time value in milliseconds since the epoch.
\<close>

record version_entry =
  Key :: "string option"
  VersionId :: "string option"
  LastModified :: "int option"
  IsDeleteMarker :: "bool option"

record response =
  Contents :: "s3_object list option"
  Versions :: "version_entry list option"
  DeleteMarkers :: "version_entry list option"
  Status :: "string option"
  VersionId :: "string option"
  Body :: "stream option"
  Metadata :: "(string \<times> string) list option"

text \<open>
  The commands the adapter builds. The first argument is always \<open>Bucket\<close>; it is optional
  because \<open>this.bucket\<close> is whatever the configuration returned.
\<close>

datatype command =
    PutObjectCommand "string option" string buffer
  | GetObjectCommand "string option" string "string option"
  | ListObjectsV2Command "string option"
  | ListObjectVersionsCommand "string option" "string option"
  | DeleteObjectCommand "string option" string "string option"
  | GetBucketVersioningCommand "string option"

section \<open>Logger, client and the state they change\<close>

datatype level = LOG | WARN | ERROR

datatype payload = Message string | Dump response

datatype log_entry = LogEntry level payload "error option"

text \<open>
  Everything an operation can change: the store itself (of an arbitrary type \<open>'s\<close>),
  the commands sent so far, and the lines logged so far, both oldest first.
\<close>

record 's world =
  backend :: 's
  calls :: "command list"
  logged :: "log_entry list"

type_synonym 's s3 = "command \<Rightarrow> 's \<Rightarrow> (error + response) \<times> 's"

type_synonym ('s, 'a) operation = "'s world \<Rightarrow> (error + 'a) \<times> 's world"

definition logger_log :: "payload \<Rightarrow> 's world \<Rightarrow> 's world" where
  "logger_log p w = w\<lparr>logged := logged w @ [LogEntry LOG p None]\<rparr>"

definition logger_warn :: "payload \<Rightarrow> 's world \<Rightarrow> 's world" where
  "logger_warn p w = w\<lparr>logged := logged w @ [LogEntry WARN p None]\<rparr>"

definition logger_error :: "payload \<Rightarrow> error \<Rightarrow> 's world \<Rightarrow> 's world" where
  "logger_error p e w = w\<lparr>logged := logged w @ [LogEntry ERROR p (Some e)]\<rparr>"

definition s3_send :: "'s s3 \<Rightarrow> command \<Rightarrow> ('s, response) operation" where
  "s3_send send cmd w =
     (case send cmd (backend w) of
        (r, s') \<Rightarrow> (r, w\<lparr>backend := s', calls := calls w @ [cmd]\<rparr>))"

subsection \<open>Template literals\<close>

fun show_nat :: "nat \<Rightarrow> string" where
  "show_nat n =
     (if n < 10 then [char_of (48 + n)]
      else show_nat (n div 10) @ [char_of (48 + n mod 10)])"

declare show_nat.simps [simp del]

definition show_opt :: "string option \<Rightarrow> string" where
  "show_opt v = (case v of None \<Rightarrow> ''undefined'' | Some s \<Rightarrow> s)"

section \<open>Construction\<close>

text \<open>
  The options object given to \<open>new S3Client\<close>; the three configured values are passed on
  as the configuration returned them.
\<close>

record s3_config =
  region :: string
  endpoint :: "string option"
  accessKeyId :: "string option"
  secretAccessKey :: "string option"
  forcePathStyle :: bool

record StorjService =
  bucket :: "string option"
  s3Client :: s3_config

text \<open>\<open>!x\<close> on an optional string: true for \<open>undefined\<close> and for the empty string.\<close>

definition js_not :: "string option \<Rightarrow> bool" where
  "js_not v = (case v of None \<Rightarrow> True | Some s \<Rightarrow> s = [])"

text \<open>
  The constructor, with the field initialiser of \<open>bucket\<close>. The configuration service is
  its \<open>get\<close> method; the second component is what the constructor logged.
\<close>

definition StorjService_constructor ::
  "(string \<Rightarrow> string option) \<Rightarrow> (error + StorjService) \<times> log_entry list" where
  "StorjService_constructor configService_get =
     (let bucket0 = configService_get ''STORJ_BUCKET'';
          accessKey = configService_get ''STORJ_ACCESS_KEY'';
          secretKey = configService_get ''STORJ_SECRET_KEY'';
          endpoint0 = configService_get ''STORJ_ENDPOINT''
      in if js_not accessKey \<or> js_not secretKey \<or> js_not endpoint0 then
           (Inl (Error ''Storj configuration is incomplete''),
            [LogEntry ERROR (Message ''Storj configuration is incomplete'') None])
         else
           (Inr \<lparr>bucket = bucket0,
                 s3Client = \<lparr>region = ''us-east-1'', endpoint = endpoint0,
                             accessKeyId = accessKey, secretAccessKey = secretKey,
                             forcePathStyle = True\<rparr>\<rparr>,
            [LogEntry LOG (Message ''Initializing Storj S3 client'') None]))"

section \<open>Numbers, dates and \<open>Array.prototype.sort\<close>\<close>

text \<open>
  A JavaScript number as far as the comparators need it: an integer or \<open>NaN\<close>. Time values
  are integers of magnitude at most 8.64e15, exact as doubles; the difference of two of
  them may be rounded, never to zero or across zero, and a sort reads only the sign of
  what its comparator returns. So the difference is taken over the integers.
\<close>

datatype number = Num int | NaN

fun num_sub :: "number \<Rightarrow> number \<Rightarrow> number" where
  "num_sub (Num a) (Num b) = Num (a - b)"
| "num_sub _ _ = NaN"

text \<open>\<open>new Date(d).getTime()\<close>: the time value of \<open>d\<close>, and \<open>NaN\<close> for \<open>new Date(undefined)\<close>.\<close>

definition getTime :: "int option \<Rightarrow> number" where
  "getTime d = (case d of None \<Rightarrow> NaN | Some t \<Rightarrow> Num t)"

text \<open>
  The language's \<open>SortCompare\<close> replaces a \<open>NaN\<close> from the comparator by \<open>+0\<close>. The sort is
  stable (ECMAScript 2019): with \<open>x\<close> originally before all of \<open>ys\<close>, \<open>x\<close> stays before
  every element it does not compare greater than.
\<close>

definition SortCompare :: "('a \<Rightarrow> 'a \<Rightarrow> number) \<Rightarrow> 'a \<Rightarrow> 'a \<Rightarrow> int" where
  "SortCompare comparefn x y = (case comparefn x y of NaN \<Rightarrow> 0 | Num v \<Rightarrow> v)"

fun array_insert :: "('a \<Rightarrow> 'a \<Rightarrow> number) \<Rightarrow> 'a \<Rightarrow> 'a list \<Rightarrow> 'a list" where
  "array_insert comparefn x [] = [x]"
| "array_insert comparefn x (y # ys) =
     (if SortCompare comparefn x y \<le> 0 then x # y # ys
      else y # array_insert comparefn x ys)"

fun array_sort :: "('a \<Rightarrow> 'a \<Rightarrow> number) \<Rightarrow> 'a list \<Rightarrow> 'a list" where
  "array_sort comparefn [] = []"
| "array_sort comparefn (x # xs) = array_insert comparefn x (array_sort comparefn xs)"

text \<open>\<open>a || []\<close> on an optional array.\<close>

definition or_empty :: "'a list option \<Rightarrow> 'a list" where
  "or_empty a = (case a of None \<Rightarrow> [] | Some xs \<Rightarrow> xs)"

section \<open>The adapter's operations\<close>




definition listObjects :: "'s s3 \<Rightarrow> StorjService \<Rightarrow> ('s, s3_object list) operation" where
  "listObjects send this w0 =
     (let w1 = logger_log (Message ''Listing objects in bucket'') w0 in
      case s3_send send (ListObjectsV2Command (bucket this)) w1 of
        (Inr response, w2) \<Rightarrow>
          (Inr (or_empty (Contents response)),
           logger_log (Message (''Found '' @
               show_nat (case Contents response of None \<Rightarrow> 0 | Some cs \<Rightarrow> length cs) @
               '' objects in bucket'')) w2)
      | (Inl error, w2) \<Rightarrow>
          (Inl error, logger_error (Message ''Failed to list objects in bucket'') error w2))"

definition listObjectVersions :: "'s s3 \<Rightarrow> StorjService \<Rightarrow> ('s, version_entry list) operation" where
  "listObjectVersions send this w0 =
     (let w1 = logger_log (Message ''Listing all object versions in bucket'') w0 in
      case s3_send send (ListObjectVersionsCommand (bucket this) None) w1 of
        (Inr response, w2) \<Rightarrow>
          (Inr (or_empty (Versions response)),
           logger_log (Message (''Found '' @
               show_nat (case Versions response of None \<Rightarrow> 0 | Some vs \<Rightarrow> length vs) @
               '' object versions in bucket'')) w2)
      | (Inl error, w2) \<Rightarrow>
          (Inl error,
           logger_error (Message ''Failed to list object versions in bucket'') error w2))"


text \<open>
  \<open>versionId\<close> is declared a string, but \<open>undeleteObject\<close> passes the \<open>VersionId\<close> property
  of an untyped entry, which may be \<open>undefined\<close>; hence the option.
\<close>

definition deleteObjectVersion ::
  "'s s3 \<Rightarrow> StorjService \<Rightarrow> string \<Rightarrow> string option \<Rightarrow> ('s, response) operation" where
  "deleteObjectVersion send this key versionId w0 =
     (let ctx = ''key: '' @ key @ '', versionId: '' @ show_opt versionId;
          w1 = logger_log (Message (''Deleting object version for '' @ ctx)) w0 in
      case s3_send send (DeleteObjectCommand (bucket this) key versionId) w1 of
        (Inr result, w2) \<Rightarrow>
          (Inr result,
           logger_log (Message (''Successfully deleted object version for '' @ ctx)) w2)
      | (Inl error, w2) \<Rightarrow>
          (Inl error,
           logger_error (Message (''Failed to delete object version for '' @ ctx)) error w2))"

definition isVersioningEnabled :: "'s s3 \<Rightarrow> StorjService \<Rightarrow> ('s, bool) operation" where
  "isVersioningEnabled send this w0 =
     (let w1 = logger_log (Message ''Checking if versioning is enabled for bucket'') w0 in
      case s3_send send (GetBucketVersioningCommand (bucket this)) w1 of
        (Inr response, w2) \<Rightarrow>
          (let isEnabled = (Status response = Some ''Enabled'') in
           (Inr isEnabled,
            logger_log (Message (''Versioning is '' @
                (if isEnabled then ''enabled'' else ''disabled'') @ '' for bucket'')) w2))
      | (Inl error, w2) \<Rightarrow>
          (Inl error,
           logger_error (Message ''Failed to check versioning status for bucket'') error w2))"

text \<open>The comparator of the per-key listing: a missing \<open>LastModified\<close> counts as time 0.\<close>

definition byLastModifiedDesc :: "version_entry \<Rightarrow> version_entry \<Rightarrow> number" where
  "byLastModifiedDesc a b =
     (let dateA = (case LastModified a of Some d \<Rightarrow> getTime (Some d) | None \<Rightarrow> Num 0);
          dateB = (case LastModified b of Some d \<Rightarrow> getTime (Some d) | None \<Rightarrow> Num 0)
      in num_sub dateB dateA)"

definition listObjectVersionsForKey ::
  "'s s3 \<Rightarrow> StorjService \<Rightarrow> string \<Rightarrow> ('s, version_entry list) operation" where
  "listObjectVersionsForKey send this key w0 =
     (let w1 = logger_log (Message (''Listing object versions for key: '' @ key)) w0 in
      case s3_send send (ListObjectVersionsCommand (bucket this) (Some key)) w1 of
        (Inr response, w2) \<Rightarrow>
          (let w3 = logger_log (Dump response) w2;
               allVersions = array_sort byLastModifiedDesc
                  (or_empty (Versions response) @ or_empty (DeleteMarkers response))
           in (Inr allVersions,
               logger_log (Message (''Found '' @ show_nat (length allVersions) @
                   '' versions/markers for key: '' @ key)) w3))
      | (Inl error, w2) \<Rightarrow>
          (Inl error,
           logger_error (Message (''Failed to list object versions for key: '' @ key)) error w2))"



definition deleteObjectWithMarker ::
  "'s s3 \<Rightarrow> StorjService \<Rightarrow> string \<Rightarrow> ('s, string option) operation" where
  "deleteObjectWithMarker send this key w0 =
     (let w1 = logger_log (Message (''Deleting object with marker for key: '' @ key)) w0 in
      case s3_send send (DeleteObjectCommand (bucket this) key None) w1 of
        (Inr response, w2) \<Rightarrow>
          (Inr (response.VersionId response),
           logger_log (Message (''Successfully deleted object with marker for key: '' @ key @
               '', marker versionId: '' @ show_opt (response.VersionId response))) w2)
      | (Inl error, w2) \<Rightarrow>
          (Inl error,
           logger_error (Message (''Failed to delete object with marker for key: '' @ key))
             error w2))"

subsection \<open>Undelete\<close>

text \<open>The filter of \<open>undeleteObject\<close>: a truthy flag and the very same key.\<close>

definition isMarkerOf :: "string \<Rightarrow> version_entry \<Rightarrow> bool" where
  "isMarkerOf key v \<longleftrightarrow> IsDeleteMarker v = Some True \<and> Key v = Some key"

text \<open>The comparator of the second sort: no default, a missing date gives \<open>NaN\<close>.\<close>

definition byDateDesc :: "version_entry \<Rightarrow> version_entry \<Rightarrow> number" where
  "byDateDesc a b = num_sub (getTime (LastModified b)) (getTime (LastModified a))"

text \<open>
  The body of the \<open>try\<close> block. Reading element 0 of an empty array gives \<open>undefined\<close> and
  the property access on it throws; the length test before makes that branch dead, and
  it is kept as the language has it.
\<close>

definition undeleteObject_try ::
  "'s s3 \<Rightarrow> StorjService \<Rightarrow> string \<Rightarrow> ('s, response) operation" where
  "undeleteObject_try send this key w1 =
     (case listObjectVersionsForKey send this key w1 of
        (Inl error, w2) \<Rightarrow> (Inl error, w2)
      | (Inr versions, w2) \<Rightarrow>
          (let deleteMarkers = filter (isMarkerOf key) versions in
           if length deleteMarkers = 0 then
             (Inl (Error ''No delete marker found for the object''),
              logger_warn (Message (''No delete marker found for key: '' @ key)) w2)
           else
             (case array_sort byDateDesc deleteMarkers of
                [] \<Rightarrow>
                  (Inl (TypeError ''Cannot read properties of undefined (reading 'VersionId')''),
                   w2)
              | latestDeleteMarker # _ \<Rightarrow>
                  (let w3 = logger_log (Message (''Found '' @ show_nat (length deleteMarkers) @
                         '' delete markers, removing latest one with versionId: '' @
                         show_opt (version_entry.VersionId latestDeleteMarker))) w2 in
                   case deleteObjectVersion send this key
                          (version_entry.VersionId latestDeleteMarker) w3 of
                     (Inl error, w4) \<Rightarrow> (Inl error, w4)
                   | (Inr result, w4) \<Rightarrow>
                       (Inr result,
                        logger_log (Message
                          (''Successfully undeleted object for key: '' @ key)) w4)))))"

definition undeleteObject :: "'s s3 \<Rightarrow> StorjService \<Rightarrow> string \<Rightarrow> ('s, response) operation" where
  "undeleteObject send this key w0 =
     (let w1 = logger_log (Message (''Undeleting object for key: '' @ key)) w0 in
      case undeleteObject_try send this key w1 of
        (Inr result, w) \<Rightarrow> (Inr result, w)
      | (Inl error, w) \<Rightarrow>
          (Inl error,
           logger_error (Message (''Failed to undelete object for key: '' @ key)) error w))"

section \<open>The HTTP layer\<close>

text \<open>
  \<open>BucketVersioningService\<close> forwards every call to the adapter unchanged, and the
  controller forwards to it; only the routes the properties below speak of are given.
\<close>

definition BucketVersioningService_listObjectVersions ::
  "'s s3 \<Rightarrow> StorjService \<Rightarrow> ('s, version_entry list) operation" where
  "BucketVersioningService_listObjectVersions send storjService =
     listObjectVersions send storjService"

definition BucketVersioningService_deleteObjectWithMarker ::
  "'s s3 \<Rightarrow> StorjService \<Rightarrow> string \<Rightarrow> ('s, string option) operation" where
  "BucketVersioningService_deleteObjectWithMarker send storjService key =
     deleteObjectWithMarker send storjService key"

text \<open>\<open>GET /bucket-versioning/versions\<close>\<close>

definition Controller_listObjectVersions ::
  "'s s3 \<Rightarrow> StorjService \<Rightarrow> ('s, version_entry list) operation" where
  "Controller_listObjectVersions send storjService =
     BucketVersioningService_listObjectVersions send storjService"

record delete_reply =
  deleteVersionId :: "string option"

text \<open>\<open>DELETE /bucket-versioning/delete/:key\<close>\<close>

definition Controller_deleteObjectWithMarker ::
  "'s s3 \<Rightarrow> StorjService \<Rightarrow> string \<Rightarrow> ('s, delete_reply) operation" where
  "Controller_deleteObjectWithMarker send storjService key w =
     (case BucketVersioningService_deleteObjectWithMarker send storjService key w of
        (Inr deleteVersionId0, w') \<Rightarrow> (Inr \<lparr>deleteVersionId = deleteVersionId0\<rparr>, w')
      | (Inl error, w') \<Rightarrow> (Inl error, w'))"

section \<open>Vocabulary of the properties\<close>

text \<open>
  The time the per-key listing orders an entry by: its \<open>LastModified\<close>, and 0 when the
  entry has none.
\<close>

definition lastModifiedOrZero :: "version_entry \<Rightarrow> int" where
  "lastModifiedOrZero v = (case LastModified v of None \<Rightarrow> 0 | Some t \<Rightarrow> t)"

text \<open>Descending order of that time: \<open>a\<close> may stand before \<open>b\<close>.\<close>

definition newerFirst :: "version_entry \<Rightarrow> version_entry \<Rightarrow> bool" where
  "newerFirst a b \<longleftrightarrow> lastModifiedOrZero b \<le> lastModifiedOrZero a"

text \<open>The two arrays of a version listing, concatenated as the per-key listing does.\<close>

definition mergedEntries :: "response \<Rightarrow> version_entry list" where
  "mergedEntries r = or_empty (Versions r) @ or_empty (DeleteMarkers r)"



subsection \<open>Fixtures\<close>

text \<open>
  The service of \<open>storj.service.spec.ts\<close>, an empty response, and the store of the
  scenario with versions \<open>v1\<close>, \<open>v2\<close> and delete marker \<open>dm1\<close> under \<open>a.txt\<close>.
\<close>

definition a_txt :: "string \<Rightarrow> int \<Rightarrow> bool option \<Rightarrow> version_entry" where
  "a_txt vid t dm = \<lparr>Key = Some ''a.txt'', VersionId = Some vid, LastModified = Some t, IsDeleteMarker = dm\<rparr>"

definition no_response :: response where
  "no_response = \<lparr>Contents = None, Versions = None, DeleteMarkers = None, Status = None,
     VersionId = None, Body = None, Metadata = None\<rparr>"

definition scenario_store :: "unit s3" where
  "scenario_store cmd s =
     (case cmd of
        ListObjectVersionsCommand _ _ \<Rightarrow>
          (Inr (no_response\<lparr>Versions := Some [a_txt ''v1'' 1 None, a_txt ''v2'' 2 None],
                            DeleteMarkers := Some [a_txt ''dm1'' 3 (Some True)]\<rparr>), s)
      | _ \<Rightarrow> (Inr no_response, s))"

definition test_service :: StorjService where
  "test_service = \<lparr>bucket = Some ''test-bucket'',
     s3Client = \<lparr>region = ''us-east-1'', endpoint = Some ''https://test-endpoint.com'',
       accessKeyId = Some ''test-access-key'', secretAccessKey = Some ''test-secret-key'',
       forcePathStyle = True\<rparr>\<rparr>"

definition fresh :: "unit world" where
  "fresh = \<lparr>backend = (), calls = [], logged = []\<rparr>"

definition answering :: "response \<Rightarrow> unit s3" where
  "answering r cmd s = (Inr r, s)"



definition test_config :: "string \<Rightarrow> string option" where
  "test_config = map_of
     [(''STORJ_ACCESS_KEY'', ''test-access-key''),
      (''STORJ_SECRET_KEY'', ''test-secret-key''),
      (''STORJ_ENDPOINT'', ''https://test-endpoint.com''),
      (''STORJ_BUCKET'', ''test-bucket'')]"

definition config_without_bucket :: "string \<Rightarrow> string option" where
  "config_without_bucket = test_config(''STORJ_BUCKET'' := None)"

definition config_without_endpoint :: "string \<Rightarrow> string option" where
  "config_without_endpoint = test_config(''STORJ_ENDPOINT'' := None)"


text \<open>
  The same scenario as the S3 client delivers it. An element of the client's
  \<open>DeleteMarkers\<close> array has the properties \<open>Owner\<close>, \<open>Key\<close>, \<open>VersionId\<close>, \<open>IsLatest\<close> and
  \<open>LastModified\<close>; it has no \<open>IsDeleteMarker\<close> property, so reading it gives \<open>undefined\<close>.
\<close>

definition delivered_scenario :: response where
  "delivered_scenario =
     no_response\<lparr>Versions := Some [a_txt ''v1'' 1 None, a_txt ''v2'' 2 None],
                   DeleteMarkers := Some [a_txt ''dm1'' 3 None]\<rparr>"

definition delivered_store :: "unit s3" where
  "delivered_store cmd s =
     (case cmd of
        ListObjectVersionsCommand _ _ \<Rightarrow> (Inr delivered_scenario, s)
      | _ \<Rightarrow> (Inr no_response, s))"

section \<open>The sort\<close>

lemma SortCompare_byLastModifiedDesc:
  "SortCompare byLastModifiedDesc a b = lastModifiedOrZero b - lastModifiedOrZero a"
  by (simp add: SortCompare_def byLastModifiedDesc_def lastModifiedOrZero_def getTime_def
      split: option.splits)

lemma SortCompare_byDateDesc:
  "lastModifiedOrZero b \<le> lastModifiedOrZero a \<Longrightarrow> SortCompare byDateDesc a b \<le> 0"
  by (simp add: SortCompare_def byDateDesc_def lastModifiedOrZero_def getTime_def
      split: option.splits)

lemma mset_array_insert: "mset (array_insert c x xs) = add_mset x (mset xs)"
  by (induction xs) simp_all

lemma mset_array_sort: "mset (array_sort c xs) = mset xs"
  by (induction xs) (simp_all add: mset_array_insert)

lemma set_array_sort: "set (array_sort c xs) = set xs"
  using mset_array_sort [of c xs] by (metis set_mset_mset)

lemma length_array_sort: "length (array_sort c xs) = length xs"
  using mset_array_sort [of c xs] by (metis size_mset)


lemma set_array_insert: "set (array_insert c x xs) = insert x (set xs)"
  using mset_array_insert [of c x xs] by (metis set_mset_add_mset_insert set_mset_mset)

lemma sorted_array_insert:
  "sorted_wrt newerFirst xs \<Longrightarrow> sorted_wrt newerFirst (array_insert byLastModifiedDesc x xs)"
proof (induction xs)
  case Nil
  then show ?case by simp
next
  case (Cons y ys)
  show ?case
  proof (cases "SortCompare byLastModifiedDesc x y \<le> 0")
    case True
    then have xy: "newerFirst x y"
      by (simp add: SortCompare_byLastModifiedDesc newerFirst_def)
    have "\<forall>z\<in>set ys. newerFirst x z"
      using Cons.prems xy by (auto simp: newerFirst_def)
    with True xy Cons.prems show ?thesis by simp
  next
    case False
    then have yx: "newerFirst y x"
      by (simp add: SortCompare_byLastModifiedDesc newerFirst_def)
    with False Cons show ?thesis by (auto simp: set_array_insert)
  qed
qed

lemma sorted_array_sort: "sorted_wrt newerFirst (array_sort byLastModifiedDesc xs)"
  by (induction xs) (simp_all add: sorted_array_insert)

lemma array_sort_already:
  "sorted_wrt (\<lambda>a b. SortCompare c a b \<le> 0) xs \<Longrightarrow> array_sort c xs = xs"
proof (induction xs)
  case Nil
  then show ?case by simp
next
  case (Cons x xs)
  then have "array_sort c xs = xs" by simp
  with Cons.prems show ?case by (cases xs) simp_all
qed

lemma sorted_wrt_filter_newerFirst:
  "sorted_wrt newerFirst xs \<Longrightarrow> sorted_wrt (\<lambda>a b. SortCompare byDateDesc a b \<le> 0) (filter P xs)"
  by (induction xs) (auto simp: newerFirst_def SortCompare_byDateDesc)

lemma second_sort_noop:
  "array_sort byDateDesc (filter P (array_sort byLastModifiedDesc xs))
     = filter P (array_sort byLastModifiedDesc xs)"
  by (rule array_sort_already) (rule sorted_wrt_filter_newerFirst, rule sorted_array_sort)

section \<open>Effects of the operations\<close>

lemmas plumbing = logger_log_def logger_warn_def logger_error_def s3_send_def Let_def

lemma listObjectVersionsForKey_resolved:
  assumes "send (ListObjectVersionsCommand (bucket this) (Some key)) (backend w) = (Inr r, s1)"
  shows "fst (listObjectVersionsForKey send this key w)
           = Inr (array_sort byLastModifiedDesc (mergedEntries r))"
    and "backend (snd (listObjectVersionsForKey send this key w)) = s1"
    and "calls (snd (listObjectVersionsForKey send this key w))
           = calls w @ [ListObjectVersionsCommand (bucket this) (Some key)]"
    and "\<exists>p q. logged (snd (listObjectVersionsForKey send this key w))
           = logged w @ [LogEntry LOG p None, LogEntry LOG (Dump r) None, LogEntry LOG q None]"
  using assms by (simp_all add: listObjectVersionsForKey_def plumbing mergedEntries_def)

lemma listObjectVersionsForKey_rejected:
  assumes "send (ListObjectVersionsCommand (bucket this) (Some key)) (backend w) = (Inl e, s1)"
  shows "fst (listObjectVersionsForKey send this key w) = Inl e"
    and "backend (snd (listObjectVersionsForKey send this key w)) = s1"
    and "calls (snd (listObjectVersionsForKey send this key w))
           = calls w @ [ListObjectVersionsCommand (bucket this) (Some key)]"
    and "\<exists>p q. logged (snd (listObjectVersionsForKey send this key w))
           = logged w @ [LogEntry LOG p None, LogEntry ERROR q (Some e)]"
  using assms by (simp_all add: listObjectVersionsForKey_def plumbing)

lemma deleteObjectVersion_effect:
  "fst (deleteObjectVersion send this key vid w)
     = fst (send (DeleteObjectCommand (bucket this) key vid) (backend w))"
  "backend (snd (deleteObjectVersion send this key vid w))
     = snd (send (DeleteObjectCommand (bucket this) key vid) (backend w))"
  "calls (snd (deleteObjectVersion send this key vid w))
     = calls w @ [DeleteObjectCommand (bucket this) key vid]"
  by (simp_all add: deleteObjectVersion_def plumbing split: prod.splits sum.splits)

lemma deleteObjectVersion_logged:
  "\<exists>p q. logged (snd (deleteObjectVersion send this key vid w))
     = logged w @ [LogEntry LOG p None,
         case fst (send (DeleteObjectCommand (bucket this) key vid) (backend w)) of
           Inl e \<Rightarrow> LogEntry ERROR q (Some e) | Inr _ \<Rightarrow> LogEntry LOG q None]"
  by (simp add: deleteObjectVersion_def plumbing split: prod.splits sum.splits)

text \<open>What the filter and the two sorts leave at index 0.\<close>

lemma latest_marker:
  assumes "\<exists>v\<in>set xs. P v"
  shows "\<exists>m rest. array_sort byDateDesc (filter P (array_sort byLastModifiedDesc xs)) = m # rest
           \<and> filter P (array_sort byLastModifiedDesc xs) = m # rest
           \<and> m \<in> set xs \<and> P m
           \<and> (\<forall>v\<in>set xs. P v \<longrightarrow> lastModifiedOrZero v \<le> lastModifiedOrZero m)"
proof -
  let ?ms = "filter P (array_sort byLastModifiedDesc xs)"
  from assms have "?ms \<noteq> []"
    by (simp add: filter_empty_conv set_array_sort)
  then obtain m rest where ms: "?ms = m # rest"
    by (cases ?ms) auto
  then have "m \<in> set ?ms" by simp
  then have m: "m \<in> set xs" "P m"
    by (simp_all add: set_array_sort)
  have "sorted_wrt newerFirst ?ms"
    by (simp add: sorted_wrt_filter sorted_array_sort)
  with ms have first: "\<forall>v\<in>set rest. newerFirst m v" by simp
  have "lastModifiedOrZero v \<le> lastModifiedOrZero m" if "v \<in> set xs" "P v" for v
  proof -
    from that have "v \<in> set ?ms" by (simp add: set_array_sort)
    with ms have "v = m \<or> v \<in> set rest" by simp
    with first show ?thesis by (auto simp: newerFirst_def)
  qed
  then have greatest: "\<forall>v\<in>set xs. P v \<longrightarrow> lastModifiedOrZero v \<le> lastModifiedOrZero m"
    by blast
  have "array_sort byDateDesc ?ms = ?ms"
    by (rule second_sort_noop)
  with ms have "array_sort byDateDesc ?ms = m # rest" by simp
  with ms m greatest show ?thesis by blast
qed

lemma backend_logger [simp]:
  "backend (logger_log p w) = backend w" "calls (logger_log p w) = calls w"
  "logged (logger_log p w) = logged w @ [LogEntry LOG p None]"
  "backend (logger_warn p w) = backend w" "calls (logger_warn p w) = calls w"
  "logged (logger_warn p w) = logged w @ [LogEntry WARN p None]"
  "backend (logger_error p e w) = backend w" "calls (logger_error p e w) = calls w"
  "logged (logger_error p e w) = logged w @ [LogEntry ERROR p (Some e)]"
  by (simp_all add: logger_log_def logger_warn_def logger_error_def)

lemma undeleteObject_rejected_listing:
  assumes "send (ListObjectVersionsCommand (bucket this) (Some key)) (backend w) = (Inl e, s1)"
  shows "fst (undeleteObject send this key w) = Inl e"
    and "backend (snd (undeleteObject send this key w)) = s1"
    and "calls (snd (undeleteObject send this key w))
           = calls w @ [ListObjectVersionsCommand (bucket this) (Some key)]"
    and "\<exists>p1 p2 p3 p4. logged (snd (undeleteObject send this key w))
           = logged w @ [LogEntry LOG p1 None, LogEntry LOG p2 None,
                         LogEntry ERROR p3 (Some e), LogEntry ERROR p4 (Some e)]"
proof -
  let ?w1 = "logger_log (Message (''Undeleting object for key: '' @ key)) w"
  obtain res w2 where L: "listObjectVersionsForKey send this key ?w1 = (res, w2)"
    by (cases "listObjectVersionsForKey send this key ?w1")
  from assms have a: "send (ListObjectVersionsCommand (bucket this) (Some key)) (backend ?w1) = (Inl e, s1)"
    by simp
  note R = listObjectVersionsForKey_rejected [of send this key ?w1 e s1, OF a]
  from R(1) L have res: "res = Inl e" by simp
  from R(2) L have b: "backend w2 = s1" by simp
  from R(3) L have c: "calls w2 = calls w @ [ListObjectVersionsCommand (bucket this) (Some key)]"
    by simp
  from R(4) L obtain p q where
    l: "logged w2 = logged ?w1 @ [LogEntry LOG p None, LogEntry ERROR q (Some e)]"
    by auto
  have U: "undeleteObject send this key w
             = (Inl e, logger_error (Message (''Failed to undelete object for key: '' @ key)) e w2)"
    unfolding undeleteObject_def undeleteObject_try_def Let_def L res prod.case sum.case
    by (rule refl)
  show "fst (undeleteObject send this key w) = Inl e" by (simp add: U)
  show "backend (snd (undeleteObject send this key w)) = s1" by (simp add: U b)
  show "calls (snd (undeleteObject send this key w))
           = calls w @ [ListObjectVersionsCommand (bucket this) (Some key)]"
    by (simp add: U c)
  show "\<exists>p1 p2 p3 p4. logged (snd (undeleteObject send this key w))
           = logged w @ [LogEntry LOG p1 None, LogEntry LOG p2 None,
                         LogEntry ERROR p3 (Some e), LogEntry ERROR p4 (Some e)]"
    by (simp add: U l)
qed

lemma undeleteObject_no_marker:
  assumes "send (ListObjectVersionsCommand (bucket this) (Some key)) (backend w) = (Inr r, s1)"
    and "\<forall>v\<in>set (mergedEntries r). \<not> isMarkerOf key v"
  shows "fst (undeleteObject send this key w) = Inl (Error ''No delete marker found for the object'')"
    and "backend (snd (undeleteObject send this key w)) = s1"
    and "calls (snd (undeleteObject send this key w))
           = calls w @ [ListObjectVersionsCommand (bucket this) (Some key)]"
proof -
  let ?w1 = "logger_log (Message (''Undeleting object for key: '' @ key)) w"
  let ?vs = "array_sort byLastModifiedDesc (mergedEntries r)"
  obtain res w2 where L: "listObjectVersionsForKey send this key ?w1 = (res, w2)"
    by (cases "listObjectVersionsForKey send this key ?w1")
  from assms(1) have a: "send (ListObjectVersionsCommand (bucket this) (Some key)) (backend ?w1) = (Inr r, s1)"
    by simp
  note R = listObjectVersionsForKey_resolved [of send this key ?w1 r s1, OF a]
  from R(1) L have res: "res = Inr ?vs" by simp
  from R(2) L have b: "backend w2 = s1" by simp
  from R(3) L have c: "calls w2 = calls w @ [ListObjectVersionsCommand (bucket this) (Some key)]"
    by simp
  from assms(2) have none: "filter (isMarkerOf key) ?vs = []"
    by (simp add: filter_empty_conv set_array_sort)
  have U: "undeleteObject send this key w
             = (Inl (Error ''No delete marker found for the object''),
                logger_error (Message (''Failed to undelete object for key: '' @ key))
                  (Error ''No delete marker found for the object'')
                  (logger_warn (Message (''No delete marker found for key: '' @ key)) w2))"
    unfolding undeleteObject_def undeleteObject_try_def Let_def L res prod.case sum.case none
    by simp
  show "fst (undeleteObject send this key w) = Inl (Error ''No delete marker found for the object'')"
    by (simp add: U)
  show "backend (snd (undeleteObject send this key w)) = s1" by (simp add: U b)
  show "calls (snd (undeleteObject send this key w))
           = calls w @ [ListObjectVersionsCommand (bucket this) (Some key)]"
    by (simp add: U c)
qed

lemma undeleteObject_marker:
  assumes "send (ListObjectVersionsCommand (bucket this) (Some key)) (backend w) = (Inr r, s1)"
    and "filter (isMarkerOf key) (array_sort byLastModifiedDesc (mergedEntries r)) = m # rest"
  shows "fst (undeleteObject send this key w)
           = fst (send (DeleteObjectCommand (bucket this) key (version_entry.VersionId m)) s1)"
    and "backend (snd (undeleteObject send this key w))
           = snd (send (DeleteObjectCommand (bucket this) key (version_entry.VersionId m)) s1)"
    and "calls (snd (undeleteObject send this key w))
           = calls w @ [ListObjectVersionsCommand (bucket this) (Some key),
                        DeleteObjectCommand (bucket this) key (version_entry.VersionId m)]"
    and "\<forall>e. fst (send (DeleteObjectCommand (bucket this) key (version_entry.VersionId m)) s1) = Inl e
           \<longrightarrow> (\<exists>ps p1 p2. logged (snd (undeleteObject send this key w))
                  = logged w @ map (\<lambda>p. LogEntry LOG p None) ps
                      @ [LogEntry ERROR p1 (Some e), LogEntry ERROR p2 (Some e)])"
proof -
  let ?w1 = "logger_log (Message (''Undeleting object for key: '' @ key)) w"
  let ?vs = "array_sort byLastModifiedDesc (mergedEntries r)"
  let ?vid = "version_entry.VersionId m"
  let ?del = "DeleteObjectCommand (bucket this) key ?vid"
  obtain res w2 where L: "listObjectVersionsForKey send this key ?w1 = (res, w2)"
    by (cases "listObjectVersionsForKey send this key ?w1")
  from assms(1) have a: "send (ListObjectVersionsCommand (bucket this) (Some key)) (backend ?w1) = (Inr r, s1)"
    by simp
  note R = listObjectVersionsForKey_resolved [of send this key ?w1 r s1, OF a]
  from R(1) L have res: "res = Inr ?vs" by simp
  from R(2) L have b: "backend w2 = s1" by simp
  from R(3) L have c: "calls w2 = calls w @ [ListObjectVersionsCommand (bucket this) (Some key)]"
    by simp
  from R(4) L obtain p q where
    l: "logged w2 = logged ?w1 @ [LogEntry LOG p None, LogEntry LOG (Dump r) None, LogEntry LOG q None]"
    by auto
  have "array_sort byDateDesc (filter (isMarkerOf key) ?vs) = filter (isMarkerOf key) ?vs"
    unfolding mergedEntries_def by (rule second_sort_noop)
  with assms(2) have sorted: "array_sort byDateDesc (filter (isMarkerOf key) ?vs) = m # rest"
    by simp
  from assms(2) have ne: "(length (filter (isMarkerOf key) ?vs) = 0) = False"
    by simp
  let ?w3 = "logger_log (Message (''Found '' @ show_nat (length (filter (isMarkerOf key) ?vs)) @
                '' delete markers, removing latest one with versionId: '' @ show_opt ?vid)) w2"
  obtain dres w4 where D: "deleteObjectVersion send this key ?vid ?w3 = (dres, w4)"
    by (cases "deleteObjectVersion send this key ?vid ?w3")
  note E = deleteObjectVersion_effect [of send this key ?vid ?w3]
  from E(1) D b have dres: "dres = fst (send ?del s1)" by simp
  from E(2) D b have db: "backend w4 = snd (send ?del s1)" by simp
  from E(3) D c have dc: "calls w4 = calls w @ [ListObjectVersionsCommand (bucket this) (Some key), ?del]"
    by simp
  have U: "undeleteObject send this key w
             = (case dres of
                  Inl error \<Rightarrow> (Inl error,
                     logger_error (Message (''Failed to undelete object for key: '' @ key)) error w4)
                | Inr result \<Rightarrow> (Inr result,
                     logger_log (Message (''Successfully undeleted object for key: '' @ key)) w4))"
    unfolding undeleteObject_def undeleteObject_try_def Let_def L res prod.case sum.case
      ne if_False sorted list.case D
    by (cases dres) simp_all
  show "fst (undeleteObject send this key w) = fst (send ?del s1)"
    by (simp add: U dres [symmetric] split: sum.splits)
  show "backend (snd (undeleteObject send this key w)) = snd (send ?del s1)"
    by (simp add: U db split: sum.splits)
  show "calls (snd (undeleteObject send this key w))
           = calls w @ [ListObjectVersionsCommand (bucket this) (Some key), ?del]"
    by (simp add: U dc split: sum.splits)
  show "\<forall>e. fst (send ?del s1) = Inl e
           \<longrightarrow> (\<exists>ps p1 p2. logged (snd (undeleteObject send this key w))
                  = logged w @ map (\<lambda>p. LogEntry LOG p None) ps
                      @ [LogEntry ERROR p1 (Some e), LogEntry ERROR p2 (Some e)])"
  proof (intro allI impI)
    fix e assume f: "fst (send ?del s1) = Inl e"
    from deleteObjectVersion_logged [of send this key ?vid ?w3] D b f obtain p5 p6 where
      "logged w4 = logged ?w3 @ [LogEntry LOG p5 None, LogEntry ERROR p6 (Some e)]"
      by auto
    with l have "logged w4 = logged w @ map (\<lambda>p. LogEntry LOG p None)
        [Message (''Undeleting object for key: '' @ key), p, Dump r, q,
         Message (''Found '' @ show_nat (length (filter (isMarkerOf key) ?vs)) @
                '' delete markers, removing latest one with versionId: '' @ show_opt ?vid), p5]
        @ [LogEntry ERROR p6 (Some e)]"
      by simp
    moreover from f dres have "dres = Inl e" by simp
    ultimately have "logged (snd (undeleteObject send this key w))
       = logged w @ map (\<lambda>p. LogEntry LOG p None)
        [Message (''Undeleting object for key: '' @ key), p, Dump r, q,
         Message (''Found '' @ show_nat (length (filter (isMarkerOf key) ?vs)) @
                '' delete markers, removing latest one with versionId: '' @ show_opt ?vid), p5]
        @ [LogEntry ERROR p6 (Some e),
           LogEntry ERROR (Message (''Failed to undelete object for key: '' @ key)) (Some e)]"
      by (simp add: U)
    then show "\<exists>ps p1 p2. logged (snd (undeleteObject send this key w))
                  = logged w @ map (\<lambda>p. LogEntry LOG p None) ps
                      @ [LogEntry ERROR p1 (Some e), LogEntry ERROR p2 (Some e)]"
      by blast
  qed
qed

section \<open>Undelete\<close>

text \<open>
  What the body of \<open>undeleteObject\<close> does with entries that do carry a true
  \<open>IsDeleteMarker\<close> flag. Let the version listing for \<open>key\<close> succeed with response \<open>r\<close>, and
  let the merged entries hold at least one entry with the flag true and the same key. Then
  \<open>undeleteObject\<close> picks such an entry \<open>m\<close> whose last-modified time (0 when missing, as in
  the listing) is greatest among them; the commands it sends are the listing and then
  exactly one delete, for \<open>key\<close> and the version identifier of \<open>m\<close>; and what it returns or
  throws is what the store answered to that delete. When the first entry of the per-key
  listing is such an entry, it is \<open>m\<close>.
\<close>

lemma undeleteObject_flagged_marker:
  assumes listed:
      "send (ListObjectVersionsCommand (bucket this) (Some key)) (backend w) = (Inr r, s1)"
    and marked: "\<exists>v\<in>set (mergedEntries r). isMarkerOf key v"
  shows "\<exists>m\<in>set (mergedEntries r).
           isMarkerOf key m
         \<and> (\<forall>v\<in>set (mergedEntries r).
              isMarkerOf key v \<longrightarrow> lastModifiedOrZero v \<le> lastModifiedOrZero m)
         \<and> (\<forall>e es. fst (listObjectVersionsForKey send this key w) = Inr (e # es)
                     \<and> isMarkerOf key e \<longrightarrow> m = e)
         \<and> calls (snd (undeleteObject send this key w))
             = calls w @ [ListObjectVersionsCommand (bucket this) (Some key),
                          DeleteObjectCommand (bucket this) key (version_entry.VersionId m)]
         \<and> fst (undeleteObject send this key w)
             = fst (send (DeleteObjectCommand (bucket this) key (version_entry.VersionId m)) s1)
         \<and> backend (snd (undeleteObject send this key w))
             = snd (send (DeleteObjectCommand (bucket this) key (version_entry.VersionId m)) s1)"
proof -
  let ?vs = "array_sort byLastModifiedDesc (mergedEntries r)"
  from latest_marker [OF marked] obtain m rest where
    ms: "filter (isMarkerOf key) ?vs = m # rest"
    and m: "m \<in> set (mergedEntries r)" "isMarkerOf key m"
    and greatest: "\<forall>v\<in>set (mergedEntries r).
        isMarkerOf key v \<longrightarrow> lastModifiedOrZero v \<le> lastModifiedOrZero m"
    by blast
  have recent: "m = e"
    if "fst (listObjectVersionsForKey send this key w) = Inr (e # es)" "isMarkerOf key e"
    for e es
  proof -
    from that(1) listObjectVersionsForKey_resolved(1) [of send this key w r s1] listed
    have "?vs = e # es" by simp
    with that(2) ms show ?thesis by simp
  qed
  note U = undeleteObject_marker [of send this key w r s1 m rest, OF listed ms]
  from m greatest recent U(1,2,3) show ?thesis by blast
qed

lemma undeleteObject_flagged_marker_example:
  "scenario_store (ListObjectVersionsCommand (bucket test_service) (Some ''a.txt'')) (backend fresh)
     = (Inr (no_response\<lparr>Versions := Some [a_txt ''v1'' 1 None, a_txt ''v2'' 2 None],
                         DeleteMarkers := Some [a_txt ''dm1'' 3 (Some True)]\<rparr>), ())
   \<and> isMarkerOf ''a.txt'' (a_txt ''dm1'' 3 (Some True))
   \<and> calls (snd (undeleteObject scenario_store test_service ''a.txt'' fresh))
       = [ListObjectVersionsCommand (Some ''test-bucket'') (Some ''a.txt''),
          DeleteObjectCommand (Some ''test-bucket'') ''a.txt'' (Some ''dm1'')]
   \<and> fst (undeleteObject scenario_store test_service ''a.txt'' fresh) = Inr no_response"
proof -
  let ?r = "no_response\<lparr>Versions := Some [a_txt ''v1'' 1 None, a_txt ''v2'' 2 None],
                         DeleteMarkers := Some [a_txt ''dm1'' 3 (Some True)]\<rparr>"
  have h1: "scenario_store (ListObjectVersionsCommand (bucket test_service) (Some ''a.txt''))
              (backend fresh) = (Inr ?r, ())"
    by (simp add: scenario_store_def)
  have dm: "isMarkerOf ''a.txt'' (a_txt ''dm1'' 3 (Some True))"
    by (simp add: isMarkerOf_def a_txt_def)
  have entries: "mergedEntries ?r
      = [a_txt ''v1'' 1 None, a_txt ''v2'' 2 None, a_txt ''dm1'' 3 (Some True)]"
    by (simp add: mergedEntries_def or_empty_def no_response_def)
  have h2: "\<exists>v\<in>set (mergedEntries ?r). isMarkerOf ''a.txt'' v"
    using dm by (simp add: entries)
  have only: "m = a_txt ''dm1'' 3 (Some True)"
    if "m \<in> set (mergedEntries ?r)" "isMarkerOf ''a.txt'' m" for m
    using that unfolding entries by (auto simp: isMarkerOf_def a_txt_def)
  from undeleteObject_flagged_marker
         [of scenario_store test_service "''a.txt''" fresh ?r "()", OF h1 h2] only
  have "calls (snd (undeleteObject scenario_store test_service ''a.txt'' fresh))
          = calls fresh @ [ListObjectVersionsCommand (bucket test_service) (Some ''a.txt''),
               DeleteObjectCommand (bucket test_service) ''a.txt''
                 (version_entry.VersionId (a_txt ''dm1'' 3 (Some True)))]
      \<and> fst (undeleteObject scenario_store test_service ''a.txt'' fresh)
          = fst (scenario_store (DeleteObjectCommand (bucket test_service) ''a.txt''
                 (version_entry.VersionId (a_txt ''dm1'' 3 (Some True)))) ())"
    by metis
  then have "calls (snd (undeleteObject scenario_store test_service ''a.txt'' fresh))
       = [ListObjectVersionsCommand (Some ''test-bucket'') (Some ''a.txt''),
          DeleteObjectCommand (Some ''test-bucket'') ''a.txt'' (Some ''dm1'')]
   \<and> fst (undeleteObject scenario_store test_service ''a.txt'' fresh) = Inr no_response"
    by (simp add: fresh_def test_service_def a_txt_def scenario_store_def)
  with h1 dm show ?thesis by blast
qed

text \<open>
  C1 says that for a key with a delete marker in its merged version sequence,
  \<open>undeleteObject\<close> selects the latest delete marker, sends one delete for its version
  identifier and returns the store's answer. The code does not: on the scenario as the
  client delivers it, the per-key listing is \<open>[dm1, v2, v1]\<close> with the delete marker \<open>dm1\<close>
  as the most recent event of \<open>a.txt\<close>, yet the filter \<open>v.IsDeleteMarker && v.Key === key\<close>
  keeps nothing, \<open>undeleteObject\<close> throws \<open>Error('No delete marker found for the object')\<close>,
  and the listing is the only command it sent.
\<close>

theorem undeleteObject_misses_delivered_marker:
  "delivered_store (ListObjectVersionsCommand (bucket test_service) (Some ''a.txt''))
      (backend fresh) = (Inr delivered_scenario, ())
 \<and> DeleteMarkers delivered_scenario = Some [a_txt ''dm1'' 3 None]
 \<and> fst (listObjectVersionsForKey delivered_store test_service ''a.txt'' fresh)
     = Inr [a_txt ''dm1'' 3 None, a_txt ''v2'' 2 None, a_txt ''v1'' 1 None]
 \<and> fst (undeleteObject delivered_store test_service ''a.txt'' fresh)
     = Inl (Error ''No delete marker found for the object'')
 \<and> calls (snd (undeleteObject delivered_store test_service ''a.txt'' fresh))
     = [ListObjectVersionsCommand (Some ''test-bucket'') (Some ''a.txt'')]"
proof -
  let ?list = "ListObjectVersionsCommand (bucket test_service) (Some ''a.txt'')"
  have listed: "delivered_store ?list (backend fresh) = (Inr delivered_scenario, ())"
    by (simp add: delivered_store_def)
  have markers: "DeleteMarkers delivered_scenario = Some [a_txt ''dm1'' 3 None]"
    by (simp add: delivered_scenario_def)
  have entries: "mergedEntries delivered_scenario
      = [a_txt ''v1'' 1 None, a_txt ''v2'' 2 None, a_txt ''dm1'' 3 None]"
    by (simp add: mergedEntries_def or_empty_def delivered_scenario_def no_response_def)
  have "array_sort byLastModifiedDesc
          [a_txt ''v1'' 1 None, a_txt ''v2'' 2 None, a_txt ''dm1'' 3 None]
      = [a_txt ''dm1'' 3 None, a_txt ''v2'' 2 None, a_txt ''v1'' 1 None]"
    by (simp add: a_txt_def SortCompare_byLastModifiedDesc lastModifiedOrZero_def)
  with listObjectVersionsForKey_resolved(1)
         [of delivered_store test_service "''a.txt''" fresh delivered_scenario "()", OF listed]
  have listing: "fst (listObjectVersionsForKey delivered_store test_service ''a.txt'' fresh)
     = Inr [a_txt ''dm1'' 3 None, a_txt ''v2'' 2 None, a_txt ''v1'' 1 None]"
    unfolding entries by simp
  have unflagged: "\<forall>v\<in>set (mergedEntries delivered_scenario). \<not> isMarkerOf ''a.txt'' v"
    unfolding entries by (simp add: isMarkerOf_def a_txt_def)
  note U = undeleteObject_no_marker
             [of delivered_store test_service "''a.txt''" fresh delivered_scenario "()",
              OF listed unflagged]
  from U(3) have sent: "calls (snd (undeleteObject delivered_store test_service ''a.txt'' fresh))
     = [ListObjectVersionsCommand (Some ''test-bucket'') (Some ''a.txt'')]"
    by (simp add: fresh_def test_service_def)
  from listed markers listing U(1) sent show ?thesis by (intro conjI)
qed

text \<open>
  C2. Let the version listing for \<open>key\<close> succeed and hold no delete marker of \<open>key\<close>. Then
  \<open>undeleteObject\<close> throws \<open>Error('No delete marker found for the object')\<close>, the listing
  is the only command it sent, and the store is in the state the listing left it in.
\<close>

theorem undeleteObject_without_marker:
  assumes "send (ListObjectVersionsCommand (bucket this) (Some key)) (backend w) = (Inr r, s1)"
    and "\<forall>v\<in>set (mergedEntries r). \<not> isMarkerOf key v"
  shows "fst (undeleteObject send this key w)
           = Inl (Error ''No delete marker found for the object'')
       \<and> calls (snd (undeleteObject send this key w))
           = calls w @ [ListObjectVersionsCommand (bucket this) (Some key)]
       \<and> backend (snd (undeleteObject send this key w)) = s1"
  using undeleteObject_no_marker [of send this key w r s1] assms by simp

theorem undeleteObject_without_marker_witness:
  "answering no_response (ListObjectVersionsCommand (bucket test_service) (Some ''a.txt''))
      (backend fresh) = (Inr no_response, ())
   \<and> mergedEntries no_response = []
   \<and> fst (undeleteObject (answering no_response) test_service ''a.txt'' fresh)
       = Inl (Error ''No delete marker found for the object'')
   \<and> calls (snd (undeleteObject (answering no_response) test_service ''a.txt'' fresh))
       = [ListObjectVersionsCommand (Some ''test-bucket'') (Some ''a.txt'')]"
proof -
  have h1: "answering no_response (ListObjectVersionsCommand (bucket test_service) (Some ''a.txt''))
      (backend fresh) = (Inr no_response, ())"
    by (simp add: answering_def)
  have none: "mergedEntries no_response = []"
    by (simp add: mergedEntries_def no_response_def or_empty_def)
  then have h2: "\<forall>v\<in>set (mergedEntries no_response). \<not> isMarkerOf ''a.txt'' v"
    by simp
  from undeleteObject_without_marker
         [of "answering no_response" test_service "''a.txt''" fresh no_response "()", OF h1 h2]
       h1 none show ?thesis
    by (simp add: fresh_def test_service_def)
qed

text \<open>
  C4. Whatever the store answers, every delete command \<open>undeleteObject\<close> sends is for the
  requested key and carries the version identifier of an entry of the listing whose
  delete-marker flag is true and whose key is exactly the requested key.
\<close>

theorem undeleteObject_deletes_only_markers_of_key:
  "\<exists>cs. calls (snd (undeleteObject send this key w)) = calls w @ cs
      \<and> (\<forall>c\<in>set cs. \<forall>b k vid. c = DeleteObjectCommand b k vid \<longrightarrow>
            k = key
          \<and> (\<exists>r s1 m.
                send (ListObjectVersionsCommand (bucket this) (Some key)) (backend w) = (Inr r, s1)
              \<and> m \<in> set (mergedEntries r)
              \<and> IsDeleteMarker m = Some True \<and> Key m = Some key
              \<and> version_entry.VersionId m = vid))"
proof -
  let ?list = "ListObjectVersionsCommand (bucket this) (Some key)"
  obtain res s1 where S: "send ?list (backend w) = (res, s1)"
    by (cases "send ?list (backend w)")
  show ?thesis
  proof (cases res)
    case (Inl e)
    with S undeleteObject_rejected_listing(3) [of send this key w e s1]
    have "calls (snd (undeleteObject send this key w)) = calls w @ [?list]" by simp
    then show ?thesis by (intro exI [of _ "[?list]"]) simp
  next
    case (Inr r)
    with S have listed: "send ?list (backend w) = (Inr r, s1)" by simp
    show ?thesis
    proof (cases "\<exists>v\<in>set (mergedEntries r). isMarkerOf key v")
      case False
      with listed undeleteObject_no_marker(3) [of send this key w r s1]
      have "calls (snd (undeleteObject send this key w)) = calls w @ [?list]" by simp
      then show ?thesis by (intro exI [of _ "[?list]"]) simp
    next
      case True
      from latest_marker [OF True] obtain m rest where
        ms: "filter (isMarkerOf key) (array_sort byLastModifiedDesc (mergedEntries r)) = m # rest"
        and m: "m \<in> set (mergedEntries r)" "isMarkerOf key m"
        by blast
      from undeleteObject_marker(3) [of send this key w r s1 m rest, OF listed ms]
      have c: "calls (snd (undeleteObject send this key w))
          = calls w @ [?list, DeleteObjectCommand (bucket this) key (version_entry.VersionId m)]" .
      from m listed have ex: "\<exists>r s1 m'.
                send ?list (backend w) = (Inr r, s1)
              \<and> m' \<in> set (mergedEntries r)
              \<and> IsDeleteMarker m' = Some True \<and> Key m' = Some key
              \<and> version_entry.VersionId m' = version_entry.VersionId m"
        unfolding isMarkerOf_def by blast
      show ?thesis
        by (intro exI [of _ "[?list, DeleteObjectCommand (bucket this) key (version_entry.VersionId m)]"])
           (use c ex in simp)
    qed
  qed
qed

theorem undeleteObject_deletes_only_markers_of_key_witness:
  "DeleteObjectCommand (Some ''test-bucket'') ''a.txt'' (Some ''dm1'')
     \<in> set (calls (snd (undeleteObject scenario_store test_service ''a.txt'' fresh)))
   \<and> (\<exists>r s1 m.
         scenario_store (ListObjectVersionsCommand (bucket test_service) (Some ''a.txt''))
           (backend fresh) = (Inr r, s1)
       \<and> m \<in> set (mergedEntries r)
       \<and> IsDeleteMarker m = Some True \<and> Key m = Some ''a.txt''
       \<and> version_entry.VersionId m = Some ''dm1'')"
proof -
  let ?del = "DeleteObjectCommand (Some ''test-bucket'') ''a.txt'' (Some ''dm1'')"
  let ?r = "no_response\<lparr>Versions := Some [a_txt ''v1'' 1 None, a_txt ''v2'' 2 None],
                         DeleteMarkers := Some [a_txt ''dm1'' 3 (Some True)]\<rparr>"
  have listed: "scenario_store (ListObjectVersionsCommand (bucket test_service) (Some ''a.txt''))
              (backend fresh) = (Inr ?r, ())"
    by (simp add: scenario_store_def)
  have ms: "filter (isMarkerOf ''a.txt'') (array_sort byLastModifiedDesc (mergedEntries ?r))
              = a_txt ''dm1'' 3 (Some True) # []"
    by (simp add: mergedEntries_def or_empty_def no_response_def a_txt_def isMarkerOf_def
        SortCompare_byLastModifiedDesc lastModifiedOrZero_def)
  from undeleteObject_marker(3)
         [of scenario_store test_service "''a.txt''" fresh ?r "()" _ "[]", OF listed ms]
  have sent: "calls (snd (undeleteObject scenario_store test_service ''a.txt'' fresh))
       = [ListObjectVersionsCommand (Some ''test-bucket'') (Some ''a.txt''), ?del]"
    by (simp add: fresh_def test_service_def a_txt_def)
  from undeleteObject_deletes_only_markers_of_key
         [of scenario_store test_service "''a.txt''" fresh]
  obtain cs where cs: "calls (snd (undeleteObject scenario_store test_service ''a.txt'' fresh))
          = calls fresh @ cs"
    and only: "\<forall>c\<in>set cs. \<forall>b k vid. c = DeleteObjectCommand b k vid \<longrightarrow>
            k = ''a.txt''
          \<and> (\<exists>r s1 m.
                scenario_store (ListObjectVersionsCommand (bucket test_service) (Some ''a.txt''))
                  (backend fresh) = (Inr r, s1)
              \<and> m \<in> set (mergedEntries r)
              \<and> IsDeleteMarker m = Some True \<and> Key m = Some ''a.txt''
              \<and> version_entry.VersionId m = vid)"
    by blast
  from cs sent have del_in: "?del \<in> set cs" by (simp add: fresh_def)
  from only del_in have "\<forall>b k vid. ?del = DeleteObjectCommand b k vid \<longrightarrow>
            k = ''a.txt''
          \<and> (\<exists>r s1 m.
                scenario_store (ListObjectVersionsCommand (bucket test_service) (Some ''a.txt''))
                  (backend fresh) = (Inr r, s1)
              \<and> m \<in> set (mergedEntries r)
              \<and> IsDeleteMarker m = Some True \<and> Key m = Some ''a.txt''
              \<and> version_entry.VersionId m = vid)"
    by (rule bspec)
  then have target: "\<exists>r s1 m.
         scenario_store (ListObjectVersionsCommand (bucket test_service) (Some ''a.txt''))
           (backend fresh) = (Inr r, s1)
       \<and> m \<in> set (mergedEntries r)
       \<and> IsDeleteMarker m = Some True \<and> Key m = Some ''a.txt''
       \<and> version_entry.VersionId m = Some ''dm1''"
    by blast
  have "?del \<in> set (calls (snd (undeleteObject scenario_store test_service ''a.txt'' fresh)))"
    unfolding sent by simp
  from this target show ?thesis by (rule conjI)
qed

section \<open>Listings\<close>

text \<open>
  C3. When the store answers the per-key listing with \<open>N\<close> version entries and \<open>M\<close>
  delete-marker entries, \<open>listObjectVersionsForKey\<close> returns \<open>N + M\<close> entries, a permutation
  of the two arrays concatenated, in descending order of last-modified time, an entry
  without a time counting as time 0.
\<close>

theorem listObjectVersionsForKey_sorted_permutation:
  assumes "send (ListObjectVersionsCommand (bucket this) (Some key)) (backend w) = (Inr r, s1)"
  shows "\<exists>allVersions.
           fst (listObjectVersionsForKey send this key w) = Inr allVersions
         \<and> length allVersions
             = length (or_empty (Versions r)) + length (or_empty (DeleteMarkers r))
         \<and> mset allVersions = mset (or_empty (Versions r) @ or_empty (DeleteMarkers r))
         \<and> sorted_wrt newerFirst allVersions"
proof -
  from listObjectVersionsForKey_resolved(1) [of send this key w r s1] assms
  have "fst (listObjectVersionsForKey send this key w)
          = Inr (array_sort byLastModifiedDesc (mergedEntries r))"
    by simp
  moreover have "length (array_sort byLastModifiedDesc (mergedEntries r))
      = length (or_empty (Versions r)) + length (or_empty (DeleteMarkers r))"
    by (simp add: length_array_sort mergedEntries_def)
  moreover have "mset (array_sort byLastModifiedDesc (mergedEntries r))
      = mset (or_empty (Versions r) @ or_empty (DeleteMarkers r))"
    by (simp add: mset_array_sort mergedEntries_def)
  moreover have "sorted_wrt newerFirst (array_sort byLastModifiedDesc (mergedEntries r))"
    by (rule sorted_array_sort)
  ultimately show ?thesis by blast
qed

lemma scenario_listing:
  "fst (listObjectVersionsForKey scenario_store test_service ''a.txt'' fresh)
     = Inr [a_txt ''dm1'' 3 (Some True), a_txt ''v2'' 2 None, a_txt ''v1'' 1 None]"
proof -
  let ?r = "no_response\<lparr>Versions := Some [a_txt ''v1'' 1 None, a_txt ''v2'' 2 None],
                         DeleteMarkers := Some [a_txt ''dm1'' 3 (Some True)]\<rparr>"
  have listed: "scenario_store (ListObjectVersionsCommand (bucket test_service) (Some ''a.txt''))
              (backend fresh) = (Inr ?r, ())"
    by (simp add: scenario_store_def)
  have "array_sort byLastModifiedDesc (mergedEntries ?r)
      = [a_txt ''dm1'' 3 (Some True), a_txt ''v2'' 2 None, a_txt ''v1'' 1 None]"
    by (simp add: mergedEntries_def or_empty_def no_response_def a_txt_def
        SortCompare_byLastModifiedDesc lastModifiedOrZero_def)
  with listObjectVersionsForKey_resolved(1)
         [of scenario_store test_service "''a.txt''" fresh ?r "()", OF listed]
  show ?thesis by simp
qed

theorem listObjectVersionsForKey_sorted_permutation_witness:
  "scenario_store (ListObjectVersionsCommand (bucket test_service) (Some ''a.txt'')) (backend fresh)
     = (Inr (no_response\<lparr>Versions := Some [a_txt ''v1'' 1 None, a_txt ''v2'' 2 None],
                         DeleteMarkers := Some [a_txt ''dm1'' 3 (Some True)]\<rparr>), ())
   \<and> (\<exists>allVersions.
         fst (listObjectVersionsForKey scenario_store test_service ''a.txt'' fresh)
           = Inr allVersions
       \<and> length allVersions = 3
       \<and> mset allVersions
           = mset ([a_txt ''v1'' 1 None, a_txt ''v2'' 2 None] @ [a_txt ''dm1'' 3 (Some True)])
       \<and> sorted_wrt newerFirst allVersions)"
proof -
  let ?r = "no_response\<lparr>Versions := Some [a_txt ''v1'' 1 None, a_txt ''v2'' 2 None],
                         DeleteMarkers := Some [a_txt ''dm1'' 3 (Some True)]\<rparr>"
  have listed: "scenario_store (ListObjectVersionsCommand (bucket test_service) (Some ''a.txt''))
              (backend fresh) = (Inr ?r, ())"
    by (simp add: scenario_store_def)
  have v: "or_empty (Versions ?r) = [a_txt ''v1'' 1 None, a_txt ''v2'' 2 None]"
    and d: "or_empty (DeleteMarkers ?r) = [a_txt ''dm1'' 3 (Some True)]"
    by (simp_all add: or_empty_def no_response_def)
  from listObjectVersionsForKey_sorted_permutation
         [of scenario_store test_service "''a.txt''" fresh ?r "()", OF listed]
  have "\<exists>allVersions.
         fst (listObjectVersionsForKey scenario_store test_service ''a.txt'' fresh)
           = Inr allVersions
       \<and> length allVersions = 3
       \<and> mset allVersions
           = mset ([a_txt ''v1'' 1 None, a_txt ''v2'' 2 None] @ [a_txt ''dm1'' 3 (Some True)])
       \<and> sorted_wrt newerFirst allVersions"
    unfolding v d by (simp add: numeral_3_eq_3)
  with listed show ?thesis by (rule conjI)
qed

text \<open>
  C9. When the store answers the bucket-wide listing with response \<open>r\<close>, the route
  \<open>GET /bucket-versioning/versions\<close> returns the \<open>Versions\<close> array of \<open>r\<close> as it is (empty
  when absent); the \<open>DeleteMarkers\<close> array has no part in the result: any other value
  of it gives the same list.
\<close>

theorem listObjectVersions_versions_only:
  assumes "send (ListObjectVersionsCommand (bucket this) None) (backend w) = (Inr r, s1)"
  shows "fst (Controller_listObjectVersions send this w) = Inr (or_empty (Versions r))
       \<and> (\<forall>d. fst (Controller_listObjectVersions
                     (\<lambda>cmd s. (Inr (r\<lparr>DeleteMarkers := d\<rparr>), s1)) this w)
               = fst (Controller_listObjectVersions send this w))"
  using assms
  by (simp add: Controller_listObjectVersions_def BucketVersioningService_listObjectVersions_def
      listObjectVersions_def plumbing)

theorem listObjectVersions_versions_only_witness:
  "scenario_store (ListObjectVersionsCommand (bucket test_service) None) (backend fresh)
     = (Inr (no_response\<lparr>Versions := Some [a_txt ''v1'' 1 None, a_txt ''v2'' 2 None],
                         DeleteMarkers := Some [a_txt ''dm1'' 3 (Some True)]\<rparr>), ())
   \<and> fst (Controller_listObjectVersions scenario_store test_service fresh)
       = Inr [a_txt ''v1'' 1 None, a_txt ''v2'' 2 None]"
proof -
  let ?r = "no_response\<lparr>Versions := Some [a_txt ''v1'' 1 None, a_txt ''v2'' 2 None],
                         DeleteMarkers := Some [a_txt ''dm1'' 3 (Some True)]\<rparr>"
  have listed: "scenario_store (ListObjectVersionsCommand (bucket test_service) None)
              (backend fresh) = (Inr ?r, ())"
    by (simp add: scenario_store_def)
  have v: "or_empty (Versions ?r) = [a_txt ''v1'' 1 None, a_txt ''v2'' 2 None]"
    by (simp add: or_empty_def no_response_def)
  from listObjectVersions_versions_only [of scenario_store test_service fresh ?r "()", OF listed]
  have "fst (Controller_listObjectVersions scenario_store test_service fresh)
          = Inr (or_empty (Versions ?r))"
    by (rule conjunct1)
  then have "fst (Controller_listObjectVersions scenario_store test_service fresh)
       = Inr [a_txt ''v1'' 1 None, a_txt ''v2'' 2 None]"
    unfolding v .
  with listed show ?thesis by (rule conjI)
qed

text \<open>
  C10. When the store's answer lacks the array an operation reads (\<open>Contents\<close> for
  \<open>listObjects\<close>, \<open>Versions\<close> for \<open>listObjectVersions\<close>, both \<open>Versions\<close> and \<open>DeleteMarkers\<close>
  for \<open>listObjectVersionsForKey\<close>), the operation resolves to the empty list.
\<close>

theorem listings_absent_arrays_empty:
  "(send (ListObjectsV2Command (bucket this)) (backend w) = (Inr r, s1) \<and> Contents r = None
      \<longrightarrow> fst (listObjects send this w) = Inr [])
 \<and> (send (ListObjectVersionsCommand (bucket this) None) (backend w) = (Inr r, s1)
      \<and> Versions r = None
      \<longrightarrow> fst (listObjectVersions send this w) = Inr [])
 \<and> (send (ListObjectVersionsCommand (bucket this) (Some key)) (backend w) = (Inr r, s1)
      \<and> Versions r = None \<and> DeleteMarkers r = None
      \<longrightarrow> fst (listObjectVersionsForKey send this key w) = Inr [])"
proof (intro conjI impI)
  assume "send (ListObjectsV2Command (bucket this)) (backend w) = (Inr r, s1) \<and> Contents r = None"
  then show "fst (listObjects send this w) = Inr []"
    by (simp add: listObjects_def plumbing or_empty_def)
next
  assume "send (ListObjectVersionsCommand (bucket this) None) (backend w) = (Inr r, s1)
      \<and> Versions r = None"
  then show "fst (listObjectVersions send this w) = Inr []"
    by (simp add: listObjectVersions_def plumbing or_empty_def)
next
  assume "send (ListObjectVersionsCommand (bucket this) (Some key)) (backend w) = (Inr r, s1)
      \<and> Versions r = None \<and> DeleteMarkers r = None"
  then show "fst (listObjectVersionsForKey send this key w) = Inr []"
    by (simp add: listObjectVersionsForKey_def plumbing or_empty_def)
qed

theorem listings_absent_arrays_empty_witness:
  "answering no_response (ListObjectsV2Command (bucket test_service)) (backend fresh)
     = (Inr no_response, ())
 \<and> answering no_response (ListObjectVersionsCommand (bucket test_service) None) (backend fresh)
     = (Inr no_response, ())
 \<and> answering no_response (ListObjectVersionsCommand (bucket test_service) (Some ''a.txt''))
      (backend fresh) = (Inr no_response, ())
 \<and> Contents no_response = None \<and> Versions no_response = None \<and> DeleteMarkers no_response = None
 \<and> fst (listObjects (answering no_response) test_service fresh) = Inr []
 \<and> fst (listObjectVersions (answering no_response) test_service fresh) = Inr []
 \<and> fst (listObjectVersionsForKey (answering no_response) test_service ''a.txt'' fresh) = Inr []"
proof -
  have a: "answering no_response (ListObjectsV2Command (bucket test_service)) (backend fresh)
     = (Inr no_response, ())"
    and b: "answering no_response (ListObjectVersionsCommand (bucket test_service) None)
      (backend fresh) = (Inr no_response, ())"
    and c: "answering no_response (ListObjectVersionsCommand (bucket test_service) (Some ''a.txt''))
      (backend fresh) = (Inr no_response, ())"
    by (simp_all add: answering_def)
  have n: "Contents no_response = None" "Versions no_response = None"
    "DeleteMarkers no_response = None"
    by (simp_all add: no_response_def)
  from listings_absent_arrays_empty
         [of "answering no_response" test_service fresh no_response "()" "''a.txt''"] a b c n
  have "fst (listObjects (answering no_response) test_service fresh) = Inr []"
    "fst (listObjectVersions (answering no_response) test_service fresh) = Inr []"
    "fst (listObjectVersionsForKey (answering no_response) test_service ''a.txt'' fresh) = Inr []"
    by blast+
  with a b c n show ?thesis by blast
qed

section \<open>Versioning status and deletion\<close>

text \<open>
  C5. When the store answers the versioning query with response \<open>r\<close>,
  \<open>isVersioningEnabled\<close> resolves to true exactly when the \<open>Status\<close> of \<open>r\<close> is the string
  \<open>Enabled\<close>; an absent status and \<open>Suspended\<close> give false.
\<close>

theorem isVersioningEnabled_iff_Enabled:
  assumes "send (GetBucketVersioningCommand (bucket this)) (backend w) = (Inr r, s1)"
  shows "fst (isVersioningEnabled send this w) = Inr (Status r = Some ''Enabled'')
       \<and> (Status r = None \<or> Status r = Some ''Suspended''
            \<longrightarrow> fst (isVersioningEnabled send this w) = Inr False)"
  using assms by (auto simp add: isVersioningEnabled_def plumbing)

theorem isVersioningEnabled_iff_Enabled_witness:
  "answering (no_response\<lparr>Status := Some ''Enabled''\<rparr>)
      (GetBucketVersioningCommand (bucket test_service)) (backend fresh)
     = (Inr (no_response\<lparr>Status := Some ''Enabled''\<rparr>), ())
 \<and> fst (isVersioningEnabled (answering (no_response\<lparr>Status := Some ''Enabled''\<rparr>))
          test_service fresh) = Inr True
 \<and> answering (no_response\<lparr>Status := Some ''Suspended''\<rparr>)
      (GetBucketVersioningCommand (bucket test_service)) (backend fresh)
     = (Inr (no_response\<lparr>Status := Some ''Suspended''\<rparr>), ())
 \<and> fst (isVersioningEnabled (answering (no_response\<lparr>Status := Some ''Suspended''\<rparr>))
          test_service fresh) = Inr False"
proof -
  let ?on = "no_response\<lparr>Status := Some ''Enabled''\<rparr>"
  let ?off = "no_response\<lparr>Status := Some ''Suspended''\<rparr>"
  have a: "answering ?on (GetBucketVersioningCommand (bucket test_service)) (backend fresh)
     = (Inr ?on, ())"
    and b: "answering ?off (GetBucketVersioningCommand (bucket test_service)) (backend fresh)
     = (Inr ?off, ())"
    by (simp_all add: answering_def)
  from isVersioningEnabled_iff_Enabled [of "answering ?on" test_service fresh ?on "()", OF a]
  have on: "fst (isVersioningEnabled (answering ?on) test_service fresh) = Inr True"
    by simp
  from isVersioningEnabled_iff_Enabled [of "answering ?off" test_service fresh ?off "()", OF b]
  have off: "fst (isVersioningEnabled (answering ?off) test_service fresh) = Inr False"
    by simp
  from a on b off show ?thesis by blast
qed

text \<open>
  C8. When the store answers the unversioned delete of \<open>key\<close> with response \<open>r\<close>, the
  route \<open>DELETE /bucket-versioning/delete/:key\<close> replies with the object whose only
  property \<open>deleteVersionId\<close> is the \<open>VersionId\<close> of \<open>r\<close>, undefined when \<open>r\<close> has none.
\<close>

theorem deleteObjectWithMarker_reply:
  assumes "send (DeleteObjectCommand (bucket this) key None) (backend w) = (Inr r, s1)"
  shows "fst (Controller_deleteObjectWithMarker send this key w)
           = Inr \<lparr>deleteVersionId = response.VersionId r\<rparr>
       \<and> calls (snd (Controller_deleteObjectWithMarker send this key w))
           = calls w @ [DeleteObjectCommand (bucket this) key None]"
  using assms
  by (simp add: Controller_deleteObjectWithMarker_def
      BucketVersioningService_deleteObjectWithMarker_def deleteObjectWithMarker_def plumbing)

theorem deleteObjectWithMarker_reply_witness:
  "answering (no_response\<lparr>response.VersionId := Some ''dm1''\<rparr>)
      (DeleteObjectCommand (bucket test_service) ''a.txt'' None) (backend fresh)
     = (Inr (no_response\<lparr>response.VersionId := Some ''dm1''\<rparr>), ())
 \<and> fst (Controller_deleteObjectWithMarker
          (answering (no_response\<lparr>response.VersionId := Some ''dm1''\<rparr>)) test_service ''a.txt'' fresh)
     = Inr \<lparr>deleteVersionId = Some ''dm1''\<rparr>
 \<and> answering no_response (DeleteObjectCommand (bucket test_service) ''a.txt'' None) (backend fresh)
     = (Inr no_response, ())
 \<and> fst (Controller_deleteObjectWithMarker (answering no_response) test_service ''a.txt'' fresh)
     = Inr \<lparr>deleteVersionId = None\<rparr>"
proof -
  let ?r = "no_response\<lparr>response.VersionId := Some ''dm1''\<rparr>"
  have a: "answering ?r (DeleteObjectCommand (bucket test_service) ''a.txt'' None) (backend fresh)
     = (Inr ?r, ())"
    and b: "answering no_response (DeleteObjectCommand (bucket test_service) ''a.txt'' None)
      (backend fresh) = (Inr no_response, ())"
    by (simp_all add: answering_def)
  from deleteObjectWithMarker_reply [of "answering ?r" test_service "''a.txt''" fresh ?r "()", OF a]
  have x: "fst (Controller_deleteObjectWithMarker (answering ?r) test_service ''a.txt'' fresh)
     = Inr \<lparr>deleteVersionId = Some ''dm1''\<rparr>"
    by simp
  from deleteObjectWithMarker_reply
         [of "answering no_response" test_service "''a.txt''" fresh no_response "()", OF b]
  have y: "fst (Controller_deleteObjectWithMarker (answering no_response) test_service ''a.txt'' fresh)
     = Inr \<lparr>deleteVersionId = None\<rparr>"
    by (simp add: no_response_def)
  from a x b y show ?thesis by blast
qed

section \<open>Construction\<close>

text \<open>
  C6, as the code has it. The constructor throws \<open>Error('Storj configuration is
  incomplete')\<close> when the access key, the secret key or the endpoint is undefined or the
  empty string. Otherwise it succeeds, and the bucket of the service is whatever the
  configuration holds under \<open>STORJ_BUCKET\<close>, undefined included: the bucket name is not
  checked.
\<close>

theorem constructor_checks_keys_and_endpoint:
  "(js_not (get ''STORJ_ACCESS_KEY'') \<or> js_not (get ''STORJ_SECRET_KEY'')
      \<or> js_not (get ''STORJ_ENDPOINT'')
     \<longrightarrow> fst (StorjService_constructor get) = Inl (Error ''Storj configuration is incomplete''))
 \<and> (\<not> js_not (get ''STORJ_ACCESS_KEY'') \<and> \<not> js_not (get ''STORJ_SECRET_KEY'')
      \<and> \<not> js_not (get ''STORJ_ENDPOINT'')
     \<longrightarrow> (\<exists>service. fst (StorjService_constructor get) = Inr service
            \<and> bucket service = get ''STORJ_BUCKET''))"
  by (simp add: StorjService_constructor_def Let_def)

lemma test_config_values:
  "test_config ''STORJ_ACCESS_KEY'' = Some ''test-access-key''"
  "test_config ''STORJ_SECRET_KEY'' = Some ''test-secret-key''"
  "test_config ''STORJ_ENDPOINT'' = Some ''https://test-endpoint.com''"
  "test_config ''STORJ_BUCKET'' = Some ''test-bucket''"
  by (simp_all add: test_config_def)

theorem constructor_checks_keys_and_endpoint_witness:
  "js_not (config_without_endpoint ''STORJ_ENDPOINT'')
 \<and> fst (StorjService_constructor config_without_endpoint)
     = Inl (Error ''Storj configuration is incomplete'')
 \<and> \<not> js_not (test_config ''STORJ_ACCESS_KEY'') \<and> \<not> js_not (test_config ''STORJ_SECRET_KEY'')
 \<and> \<not> js_not (test_config ''STORJ_ENDPOINT'')
 \<and> (\<exists>service. fst (StorjService_constructor test_config) = Inr service
        \<and> bucket service = Some ''test-bucket'')"
proof -
  have a: "js_not (config_without_endpoint ''STORJ_ENDPOINT'')"
    by (simp add: config_without_endpoint_def js_not_def)
  have b: "\<not> js_not (test_config ''STORJ_ACCESS_KEY'')" "\<not> js_not (test_config ''STORJ_SECRET_KEY'')"
    "\<not> js_not (test_config ''STORJ_ENDPOINT'')"
    by (simp_all add: test_config_values js_not_def)
  from constructor_checks_keys_and_endpoint [of config_without_endpoint] a
  have x: "fst (StorjService_constructor config_without_endpoint)
     = Inl (Error ''Storj configuration is incomplete'')"
    by blast
  from constructor_checks_keys_and_endpoint [of test_config] b
  have "\<exists>service. fst (StorjService_constructor test_config) = Inr service
        \<and> bucket service = test_config ''STORJ_BUCKET''"
    by blast
  then have y: "\<exists>service. fst (StorjService_constructor test_config) = Inr service
        \<and> bucket service = Some ''test-bucket''"
    by (simp add: test_config_values)
  from a x b y show ?thesis by blast
qed

text \<open>
  Against C6 as stated: with the bucket name absent and the other three settings
  present, the constructor does not fail.
\<close>

theorem constructor_without_bucket_counterexample:
  "config_without_bucket ''STORJ_BUCKET'' = None
 \<and> \<not> isl (fst (StorjService_constructor config_without_bucket))"
proof -
  have v: "config_without_bucket ''STORJ_ACCESS_KEY'' = Some ''test-access-key''"
    "config_without_bucket ''STORJ_SECRET_KEY'' = Some ''test-secret-key''"
    "config_without_bucket ''STORJ_ENDPOINT'' = Some ''https://test-endpoint.com''"
    "config_without_bucket ''STORJ_BUCKET'' = None"
    by (simp_all add: config_without_bucket_def test_config_values)
  show ?thesis
    unfolding StorjService_constructor_def Let_def v by (simp add: js_not_def)
qed

section \<open>Failures\<close>




















end
